theory Spec2Isabelle
  imports Main "HOL-Library.Sublist" "HOL-Library.AList"
begin

section \<open>Python values, exceptions and the methods of \<open>str\<close>\<close>

text \<open>
  The two programs (\<open>voting.py\<close>, \<open>sectioning.py\<close>) talk to an inference endpoint and
  work on its answers. What \<open>await ollama_response.json()\<close> gives back is any JSON value;
  \<open>pyval\<close> is the Python object it is decoded to. A \<open>dict\<close> keeps its insertion order
  and is the list of its items (keys distinct); a float carries its literal, nothing
  computes on it.
\<close>

datatype pyval =
    PNone
  | PBool bool
  | PInt int
  | PFloat string
  | PStr string
  | PList "pyval list"
  | PDict "(string \<times> pyval) list"

text \<open>
  The exceptions of the model are instances of \<open>Exception\<close>, each with the text \<open>str(e)\<close>
  gives: the ones Python itself raises in these functions, and \<open>EnvException\<close> for whatever
  the HTTP library raises (connection refused, time-out, a body that is not JSON).
  Signals that derive from \<open>BaseException\<close> only (an interrupt of the interpreter,
  the cancellation of a task, which nothing in these programs requests) are not events
  of the model.
\<close>

datatype py_exception =
    AttributeError string
  | IndexError string
  | ValueError string
  | EnvException string

fun str_exc :: "py_exception \<Rightarrow> string" where
  "str_exc (AttributeError m) = m"
| "str_exc (IndexError m) = m"
| "str_exc (ValueError m) = m"
| "str_exc (EnvException m) = m"

fun type_name :: "pyval \<Rightarrow> string" where
  "type_name PNone = ''NoneType''"
| "type_name (PBool _) = ''bool''"
| "type_name (PInt _) = ''int''"
| "type_name (PFloat _) = ''float''"
| "type_name (PStr _) = ''str''"
| "type_name (PList _) = ''list''"
| "type_name (PDict _) = ''dict''"

definition no_attribute :: "pyval \<Rightarrow> string \<Rightarrow> py_exception" where
  "no_attribute v attr =
     AttributeError ([CHR 0x27] @ type_name v @ [CHR 0x27] @ '' object has no attribute ''
                     @ [CHR 0x27] @ attr @ [CHR 0x27])"

text \<open>
  Strings are \<open>string\<close>: a list of 8-bit characters, the UTF-8 bytes of the text. The
  methods below are those of \<open>str\<close> on ASCII text: \<open>isspace\<close> holds of the ASCII characters
  Python counts as whitespace (tab to carriage return, the four separators 0x1C to 0x1F,
  the blank), \<open>str_upper\<close> maps \<open>a\<close> to \<open>z\<close> and leaves every other byte as it is.
\<close>

definition isspace :: "char \<Rightarrow> bool" where
  "isspace c = (c \<in> set [CHR 0x09, CHR 0x0A, CHR 0x0B, CHR 0x0C, CHR 0x0D,
                           CHR 0x1C, CHR 0x1D, CHR 0x1E, CHR 0x1F, CHR 0x20])"

definition upper_char :: "char \<Rightarrow> char" where
  "upper_char c =
     (case map_of (zip ''abcdefghijklmnopqrstuvwxyz'' ''ABCDEFGHIJKLMNOPQRSTUVWXYZ'') c of
        Some u \<Rightarrow> u
      | None \<Rightarrow> c)"

definition str_upper :: "string \<Rightarrow> string" where
  "str_upper s = map upper_char s"

definition str_strip :: "string \<Rightarrow> string" where
  "str_strip s = rev (dropWhile isspace (rev (dropWhile isspace s)))"

text \<open>
  \<open>s.split()\<close>: the maximal runs of characters that are not whitespace, in order;
  \<open>cur\<close> is the run being read.
\<close>

fun split_from :: "string \<Rightarrow> string \<Rightarrow> string list" where
  "split_from cur [] = (if cur = [] then [] else [cur])"
| "split_from cur (c # cs) =
     (if isspace c then (if cur = [] then split_from [] cs else cur # split_from [] cs)
      else split_from (cur @ [c]) cs)"

definition str_split :: "string \<Rightarrow> string list" where
  "str_split s = split_from [] s"

text \<open>\<open>str(n)\<close> of an integer, as an f-string renders it: decimal digits, a sign if negative.\<close>

definition digit_char :: "nat \<Rightarrow> char" where
  "digit_char d = ''0123456789'' ! (d mod 10)"

function str_nat :: "nat \<Rightarrow> string" where
  "str_nat n = (if n < 10 then [digit_char n] else str_nat (n div 10) @ [digit_char (n mod 10)])"
  by pat_completeness auto
termination
  by (relation "measure id") auto

declare str_nat.simps [simp del]

definition str_int :: "int \<Rightarrow> string" where
  "str_int i = (if i < 0 then ''-'' @ str_nat (nat (- i)) else str_nat (nat i))"

text \<open>\<open>d.get(k, default)\<close> on a dict given by its items.\<close>

definition dict_get :: "('k \<times> 'v) list \<Rightarrow> 'k \<Rightarrow> 'v \<Rightarrow> 'v" where
  "dict_get d k dflt = (case map_of d k of Some v \<Rightarrow> v | None \<Rightarrow> dflt)"

text \<open>
  \<open>template.format(name=value)\<close> for a template with one replacement field: the text
  before the field, the value, the text after it.
\<close>

definition format_template :: "string \<times> string \<Rightarrow> string \<Rightarrow> string" where
  "format_template t v = fst t @ v @ snd t"


section \<open>The inference client: \<open>call_ollama\<close>\<close>

text \<open>
  One call posts \<open>{model, prompt, stream: False}\<close> to the endpoint. What happens then is
  the endpoint's and the network's choice, an \<open>exchange\<close>: \<open>session.post\<close> raises, or a
  response with a status arrives, whose \<open>json()\<close> raises or gives a value.
\<close>

record payload =
  model :: string
  prompt :: string
  stream :: bool

datatype body = JsonRaises string | JsonValue pyval

datatype exchange = PostRaises string | Responds int body

text \<open>The body of the \<open>try\<close> block: \<open>Inl\<close> is an exception leaving it.\<close>

definition call_ollama_try :: "exchange \<Rightarrow> py_exception + pyval" where
  "call_ollama_try x =
     (case x of
        PostRaises msg \<Rightarrow> Inl (EnvException msg)
      | Responds status b \<Rightarrow>
          if status = 200 then
            (case b of
               JsonRaises msg \<Rightarrow> Inl (EnvException msg)
             | JsonValue ollama_result \<Rightarrow>
                 (case ollama_result of
                    PDict d \<Rightarrow> Inr (dict_get d ''response'' (PStr ''''))
                  | _ \<Rightarrow> Inl (no_attribute ollama_result ''get'')))
          else Inr (PStr (''Error: Status '' @ str_int status)))"

text \<open>
  \<open>call_ollama\<close> with its handler \<open>except Exception as e: return f"Error: {str(e)}"\<close>.
  \<open>MODEL\<close> is the module's constant (\<open>gemma:3b\<close> in voting.py, \<open>gemma3\<close> in
  sectioning.py: the two copies of the function differ in nothing else); \<open>post\<close> is
  the endpoint as this call meets it.
\<close>

definition call_ollama :: "string \<Rightarrow> (payload \<Rightarrow> exchange) \<Rightarrow> string \<Rightarrow> py_exception + pyval" where
  "call_ollama MODEL post p =
     (case call_ollama_try (post \<lparr>model = MODEL, prompt = p, stream = False\<rparr>) of
        Inl e \<Rightarrow> Inr (PStr (''Error: '' @ str_exc e))
      | Inr v \<Rightarrow> Inr v)"


section \<open>The fan-out: \<open>asyncio.gather\<close>\<close>

text \<open>
  \<open>await asyncio.gather(*tasks)\<close> runs the tasks concurrently. Each task settles at some
  moment: \<open>order\<close> is the sequence of task indices in the order they settle. A task that
  returns puts its value into the slot of its own index; the first task that raises makes
  \<open>gather\<close> raise. \<open>gather\<close> returns the slots once every one is filled, and while one is
  empty the \<open>await\<close> has not returned (\<open>None\<close>). A task is given by what it does when
  it runs: \<open>Inl\<close> it raises, \<open>Inr\<close> it returns.
\<close>

fun settle :: "(py_exception + 'a) list \<Rightarrow> nat list \<Rightarrow> 'a option list \<Rightarrow> py_exception + 'a option list" where
  "settle tasks [] slots = Inr slots"
| "settle tasks (i # order) slots =
     (if i < length tasks then
        (case tasks ! i of
           Inl e \<Rightarrow> Inl e
         | Inr v \<Rightarrow> settle tasks order (slots[i := Some v]))
      else settle tasks order slots)"

definition gather :: "(py_exception + 'a) list \<Rightarrow> nat list \<Rightarrow> (py_exception + 'a list) option" where
  "gather tasks order =
     (case settle tasks order (replicate (length tasks) None) of
        Inl e \<Rightarrow> Some (Inl e)
      | Inr slots \<Rightarrow> if list_all (\<lambda>s. s \<noteq> None) slots then Some (Inr (map the slots)) else None)"

text \<open>
  The loop that builds \<open>tasks\<close>: one \<open>call_ollama\<close> per prompt, in the order of the prompts.
  \<open>env i\<close> is the endpoint as the \<open>i\<close>-th call meets it.
\<close>

definition make_tasks :: "string \<Rightarrow> (nat \<Rightarrow> payload \<Rightarrow> exchange) \<Rightarrow> string list \<Rightarrow> (py_exception + pyval) list" where
  "make_tasks MODEL env prompts =
     map (\<lambda>(i, p). call_ollama MODEL (env i) p) (enumerate 0 prompts)"

definition fan_out :: "string \<Rightarrow> (nat \<Rightarrow> payload \<Rightarrow> exchange) \<Rightarrow> nat list \<Rightarrow> string list \<Rightarrow> (py_exception + pyval list) option" where
  "fan_out MODEL env order prompts = gather (make_tasks MODEL env prompts) order"


section \<open>Voting: \<open>analyze_sentiment_voting\<close>\<close>

text \<open>The module constants of voting.py; each template ends with its field \<open>{text}\<close>.\<close>

definition VOTING_MODEL :: string where
  "VOTING_MODEL = ''gemma:3b''"

definition SENTIMENT_PROMPTS :: "(string \<times> string) list" where
  "SENTIMENT_PROMPTS = [
    (''Analyze the sentiment of the following text. Respond with ONLY one word: POSITIVE, NEGATIVE, or NEUTRAL.\<newline>'' @
     ''    Text: '',
     []),
    (''What is the emotional tone of this text? Reply with a single word only: POSITIVE, NEGATIVE, or NEUTRAL.\<newline>'' @
     ''    Text: '',
     []),
    (''Classify the sentiment expressed in this text as either POSITIVE, NEGATIVE, or NEUTRAL. \<newline>'' @
     ''    Respond with only the classification word.\<newline>'' @
     ''    Text: '',
     [])]"

text \<open>
  \<open>sa_sentiment.split()[0] if sa_sentiment else ""\<close>: indexing the empty list raises
  \<open>IndexError\<close>.
\<close>

definition first_word :: "string \<Rightarrow> py_exception + string" where
  "first_word sa_sentiment =
     (if sa_sentiment \<noteq> [] then
        (case str_split sa_sentiment of
           [] \<Rightarrow> Inl (IndexError ''list index out of range'')
         | w # _ \<Rightarrow> Inr w)
      else Inr [])"

text \<open>
  The body of the loop over the responses, for a response that is a \<open>str\<close>: the vote it
  appends to \<open>sa_votes\<close>, if any.
\<close>

definition classify :: "string \<Rightarrow> py_exception + string option" where
  "classify sa_response =
     (let sa_sentiment = str_upper (str_strip sa_response) in
      if sublist ''POSITIVE'' sa_sentiment then Inr (Some ''POSITIVE'')
      else if sublist ''NEGATIVE'' sa_sentiment then Inr (Some ''NEGATIVE'')
      else if sublist ''NEUTRAL'' sa_sentiment then Inr (Some ''NEUTRAL'')
      else
        (case first_word sa_sentiment of
           Inl e \<Rightarrow> Inl e
         | Inr w \<Rightarrow>
             if w \<in> set [''POSITIVE'', ''NEGATIVE'', ''NEUTRAL''] then Inr (Some w)
             else Inr None))"

text \<open>
  The loop \<open>for sa_response in responses\<close>. A response that is not a \<open>str\<close> has no
  \<open>strip\<close>: the loop raises there.
\<close>

fun classify_loop :: "pyval list \<Rightarrow> string list \<Rightarrow> py_exception + string list" where
  "classify_loop [] sa_votes = Inr sa_votes"
| "classify_loop (sa_response # responses) sa_votes =
     (case sa_response of
        PStr s \<Rightarrow>
          (case classify s of
             Inl e \<Rightarrow> Inl e
           | Inr None \<Rightarrow> classify_loop responses sa_votes
           | Inr (Some v) \<Rightarrow> classify_loop responses (sa_votes @ [v]))
      | _ \<Rightarrow> Inl (no_attribute sa_response ''strip''))"

text \<open>
  The tally \<open>sa_vote_counts[sa_vote] = sa_vote_counts.get(sa_vote, 0) + 1\<close>: a new key goes
  to the end of the dict, a key already there keeps its place (\<open>AList.update\<close>).
\<close>

fun count_votes :: "string list \<Rightarrow> (string \<times> int) list \<Rightarrow> (string \<times> int) list" where
  "count_votes [] sa_vote_counts = sa_vote_counts"
| "count_votes (sa_vote # sa_votes) sa_vote_counts =
     count_votes sa_votes
       (AList.update sa_vote (dict_get sa_vote_counts sa_vote 0 + 1) sa_vote_counts)"

text \<open>
  \<open>max(items, key=...)\<close>: the first item with the greatest key (a later item replaces the
  best so far only when its key is strictly greater); \<open>ValueError\<close> on no item at all.
\<close>

fun max_from :: "('a \<Rightarrow> int) \<Rightarrow> 'a \<Rightarrow> 'a list \<Rightarrow> 'a" where
  "max_from key best [] = best"
| "max_from key best (x # xs) =
     (if key best < key x then max_from key x xs else max_from key best xs)"

definition py_max :: "('a \<Rightarrow> int) \<Rightarrow> 'a list \<Rightarrow> py_exception + 'a" where
  "py_max key items =
     (case items of
        [] \<Rightarrow> Inl (ValueError ''max() arg is an empty sequence'')
      | x # xs \<Rightarrow> Inr (max_from key x xs))"

text \<open>"Determine winner by majority vote": the \<open>if sa_votes: ... else: ...\<close> at the end.\<close>

definition determine_winner :: "string list \<Rightarrow> py_exception + string \<times> string list" where
  "determine_winner sa_votes =
     (if sa_votes \<noteq> [] then
        (case py_max snd (count_votes sa_votes []) of
           Inl e \<Rightarrow> Inl e
         | Inr item \<Rightarrow> Inr (fst item, sa_votes))
      else Inr (''UNABLE TO DETERMINE'', sa_votes))"

text \<open>Everything after the \<open>gather\<close>: from the responses to the pair returned.\<close>

definition vote :: "pyval list \<Rightarrow> py_exception + string \<times> string list" where
  "vote responses =
     (case classify_loop responses [] of
        Inl e \<Rightarrow> Inl e
      | Inr sa_votes \<Rightarrow> determine_winner sa_votes)"

text \<open>
  The whole function. \<open>None\<close>: the \<open>await\<close> never returns; \<open>Some (Inl e)\<close>: the
  function raises \<open>e\<close>; \<open>Some (Inr (winner, sa_votes))\<close>: it returns the pair.
\<close>

definition analyze_sentiment_voting :: "(nat \<Rightarrow> payload \<Rightarrow> exchange) \<Rightarrow> nat list \<Rightarrow> string \<Rightarrow> (py_exception + string \<times> string list) option" where
  "analyze_sentiment_voting env order text =
     (case fan_out VOTING_MODEL env order
             (map (\<lambda>prompt_template. format_template prompt_template text) SENTIMENT_PROMPTS) of
        None \<Rightarrow> None
      | Some (Inl e) \<Rightarrow> Some (Inl e)
      | Some (Inr responses) \<Rightarrow> Some (vote responses))"


section \<open>Sectioning: \<open>generate_newsletter_sections\<close> and \<open>format_newsletter\<close>\<close>

text \<open>
  The module constants of sectioning.py. \<open>SECTION_PROMPTS\<close> is a dict in the order it is
  written: section name, then the template as the text before and after its field
  \<open>{topic}\<close>.
\<close>

definition SECTIONING_MODEL :: string where
  "SECTIONING_MODEL = ''gemma3''"

definition SECTION_PROMPTS :: "(string \<times> string \<times> string) list" where
  "SECTION_PROMPTS = [
    (''headlines'',
     ''Generate 3-4 attention-grabbing headlines about '',
     '' in AI. \<newline>'' @
     ''    Format as a bullet list. Be concise and impactful. Focus on recent developments and breakthroughs.  List your sources as links. \<newline>'' @
     ''    IMPORTANT: Provide ONLY the requested headlines. Do not add any questions, offers for more content, or additional commentary''),
    (''technical_deep_dive'',
     ''Write a technical deep dive section about '',
     '' in AI.\<newline>'' @
     ''    Include technical details, architecture, algorithms, or implementation details.\<newline>'' @
     ''    Keep it informative but accessible. About 2-3 paragraphs.\<newline>'' @
     ''    IMPORTANT: Provide ONLY the technical content. Do not add any questions, offers for more information, or additional commentary.''),
    (''industry_news'',
     ''Write about recent industry news and business developments related to '',
     '' in AI.\<newline>'' @
     ''    Include company announcements, partnerships, investments, or market trends.\<newline>'' @
     ''    Format as 2-3 short news items.\<newline>'' @
     ''    IMPORTANT: Provide ONLY the news content. Do not add any questions, offers for more content, or additional commentary.''),
    (''tools_resources'',
     ''List 3-5 practical tools, libraries, or resources related to '',
     '' in AI.\<newline>'' @
     ''    Include brief descriptions and why they're useful. Format as a bullet list.\<newline>'' @
     ''    IMPORTANT: Provide ONLY the tools and resources list. Do not add any questions, offers for more suggestions, or additional commentary''),
    (''opinion_analysis'',
     ''Provide thoughtful analysis and future outlook on '',
     '' in AI.\<newline>'' @
     ''    Include potential impacts, challenges, and opportunities. Write 1-2 paragraphs with forward-looking perspective.\<newline>'' @
     ''    IMPORTANT: Provide ONLY the analysis. Do not add any questions, offers for more perspectives, or additional commentary.'')]"

text \<open>
  The last loop of \<open>generate_newsletter_sections\<close>:
  \<open>for result_section, result in zip(section_names, responses): results[result_section] = result\<close>.
\<close>

fun combine_results :: "(string \<times> pyval) list \<Rightarrow> (string \<times> pyval) list \<Rightarrow> (string \<times> pyval) list" where
  "combine_results [] results = results"
| "combine_results ((result_section, result) # rest) results =
     combine_results rest (AList.update result_section result results)"

text \<open>
  The whole function; the \<open>print\<close> calls write to the console and change nothing else, they
  are left out. \<open>None\<close>: the \<open>await\<close> never returns; \<open>Some (Inl e)\<close>: the function
  raises; \<open>Some (Inr results)\<close>: it returns the dict.
\<close>

definition generate_newsletter_sections :: "(nat \<Rightarrow> payload \<Rightarrow> exchange) \<Rightarrow> nat list \<Rightarrow> string \<Rightarrow> (py_exception + (string \<times> pyval) list) option" where
  "generate_newsletter_sections env order user_topic =
     (let prompts = map (\<lambda>(prompt_section, prompt_template). format_template prompt_template user_topic)
                        SECTION_PROMPTS;
          section_names = map fst SECTION_PROMPTS
      in case fan_out SECTIONING_MODEL env order prompts of
           None \<Rightarrow> None
         | Some (Inl e) \<Rightarrow> Some (Inl e)
         | Some (Inr responses) \<Rightarrow> Some (Inr (combine_results (zip section_names responses) [])))"

text \<open>
  \<open>datetime.now().strftime('%B %d, %Y')\<close>: the clock is read at each call, so the moment
  of the call is an input of the function. Only the date is printed: the full month name
  (English: the programs never change the locale), the day on two digits, the year (four
  digits for every year a clock gives today).
\<close>

datatype month =
    January | February | March | April | May | June
  | July | August | September | October | November | December

record datetime =
  year :: nat
  month :: month
  day :: nat
  hour :: nat
  minute :: nat
  second :: nat

fun month_name :: "month \<Rightarrow> string" where
  "month_name January = ''January''"
| "month_name February = ''February''"
| "month_name March = ''March''"
| "month_name April = ''April''"
| "month_name May = ''May''"
| "month_name June = ''June''"
| "month_name July = ''July''"
| "month_name August = ''August''"
| "month_name September = ''September''"
| "month_name October = ''October''"
| "month_name November = ''November''"
| "month_name December = ''December''"

definition two_digits :: "nat \<Rightarrow> string" where
  "two_digits n = (if n < 10 then ''0'' @ str_nat n else str_nat n)"

definition strftime_B_d_Y :: "datetime \<Rightarrow> string" where
  "strftime_B_d_Y t = month_name (month t) @ '' '' @ two_digits (day t) @ '', '' @ str_nat (year t)"

text \<open>
  \<open>format_newsletter\<close>: one f-string. The pictographs of the headings are written as
  their UTF-8 bytes. \<open>topic_sections\<close> is a \<open>Dict[str, str]\<close>, as the signature says.
\<close>

definition format_newsletter :: "datetime \<Rightarrow> string \<Rightarrow> (string \<times> string) list \<Rightarrow> string" where
  "format_newsletter now user_topic topic_sections =
     ''# AI Newsletter: '' @ user_topic @ ''\<newline>'' @
     ''*Generated on '' @ strftime_B_d_Y now @ ''*\<newline>'' @
     ''\<newline>'' @
     ''---\<newline>'' @
     ''\<newline>'' @
     ''## '' @ [CHR 0xF0, CHR 0x9F, CHR 0x93, CHR 0xB0] @ '' Headlines\<newline>'' @
     ''\<newline>'' @
     dict_get topic_sections ''headlines'' ''No headlines generated.'' @ ''\<newline>'' @
     ''\<newline>'' @
     ''---\<newline>'' @
     ''\<newline>'' @
     ''## '' @ [CHR 0xF0, CHR 0x9F, CHR 0x94, CHR 0xAC] @ '' Technical Deep Dive\<newline>'' @
     ''\<newline>'' @
     dict_get topic_sections ''technical_deep_dive'' ''No technical content generated.'' @ ''\<newline>'' @
     ''\<newline>'' @
     ''---\<newline>'' @
     ''\<newline>'' @
     ''## '' @ [CHR 0xF0, CHR 0x9F, CHR 0x8F, CHR 0xA2] @ '' Industry News\<newline>'' @
     ''\<newline>'' @
     dict_get topic_sections ''industry_news'' ''No industry news generated.'' @ ''\<newline>'' @
     ''\<newline>'' @
     ''---\<newline>'' @
     ''\<newline>'' @
     ''## '' @ [CHR 0xF0, CHR 0x9F, CHR 0x9B, CHR 0xA0, CHR 0xEF, CHR 0xB8, CHR 0x8F] @ '' Tools & Resources\<newline>'' @
     ''\<newline>'' @
     dict_get topic_sections ''tools_resources'' ''No tools/resources generated.'' @ ''\<newline>'' @
     ''\<newline>'' @
     ''---\<newline>'' @
     ''\<newline>'' @
     ''## '' @ [CHR 0xF0, CHR 0x9F, CHR 0x92, CHR 0xAD] @ '' Analysis & Outlook\<newline>'' @
     ''\<newline>'' @
     dict_get topic_sections ''opinion_analysis'' ''No analysis generated.'' @ ''\<newline>'' @
     ''\<newline>'' @
     ''---\<newline>'' @
     ''\<newline>'' @
     ''*This newsletter was generated using parallel AI processing, with each section created simultaneously by separate LLM instances.*\<newline>''"


section \<open>The classifier in the words of the specification\<close>

text \<open>
  The specification describes the classification of one raw response: uppercase it and
  trim it; test containment of the tokens POSITIVE, NEGATIVE, NEUTRAL in that order, the
  first match wins; if none is contained, take the first whitespace-delimited token when
  it equals one of the three labels; otherwise drop the response (\<open>None\<close>). This
  definition follows those words, not the code; \<open>classify\<close> above follows the code.
\<close>

definition classify_spec :: "string \<Rightarrow> string option" where
  "classify_spec raw =
     (let s = str_strip (str_upper raw) in
      case find (\<lambda>token. sublist token s) [''POSITIVE'', ''NEGATIVE'', ''NEUTRAL''] of
        Some token \<Rightarrow> Some token
      | None \<Rightarrow>
          (case str_split s of
             [] \<Rightarrow> None
           | w # _ \<Rightarrow> if w \<in> set [''POSITIVE'', ''NEGATIVE'', ''NEUTRAL''] then Some w else None))"


text \<open>
  The five slots of the f-string of \<open>format_newsletter\<close>, read off the template: the
  key looked up with \<open>get\<close>, the heading line that stands above the slot, and the default
  of the \<open>get\<close>.
\<close>

definition NEWSLETTER_SLOTS :: "(string \<times> string \<times> string) list" where
  "NEWSLETTER_SLOTS = [
     (''headlines'',
      ''## '' @ [CHR 0xF0, CHR 0x9F, CHR 0x93, CHR 0xB0] @ '' Headlines'',
      ''No headlines generated.''),
     (''technical_deep_dive'',
      ''## '' @ [CHR 0xF0, CHR 0x9F, CHR 0x94, CHR 0xAC] @ '' Technical Deep Dive'',
      ''No technical content generated.''),
     (''industry_news'',
      ''## '' @ [CHR 0xF0, CHR 0x9F, CHR 0x8F, CHR 0xA2] @ '' Industry News'',
      ''No industry news generated.''),
     (''tools_resources'',
      ''## '' @ [CHR 0xF0, CHR 0x9F, CHR 0x9B, CHR 0xA0, CHR 0xEF, CHR 0xB8, CHR 0x8F] @ '' Tools & Resources'',
      ''No tools/resources generated.''),
     (''opinion_analysis'',
      ''## '' @ [CHR 0xF0, CHR 0x9F, CHR 0x92, CHR 0xAD] @ '' Analysis & Outlook'',
      ''No analysis generated.'')]"


section \<open>Facts about the methods of \<open>str\<close> and the classifier\<close>

lemma isspace_upper_char: "isspace (upper_char c) = isspace c"
  by (auto simp add: isspace_def upper_char_def split: option.splits)

lemma str_upper_dropWhile: "str_upper (dropWhile isspace s) = dropWhile isspace (str_upper s)"
  by (induction s) (simp_all add: str_upper_def isspace_upper_char)

lemma str_upper_rev: "str_upper (rev s) = rev (str_upper s)"
  by (simp add: str_upper_def rev_map)

lemma str_upper_strip: "str_upper (str_strip s) = str_strip (str_upper s)"
  by (simp add: str_strip_def str_upper_dropWhile str_upper_rev)

lemma split_from_cur: "cur \<noteq> [] \<Longrightarrow> split_from cur s \<noteq> []"
  by (induction s arbitrary: cur) simp_all

lemma split_from_nonspace: "\<not> list_all isspace s \<Longrightarrow> split_from cur s \<noteq> []"
  by (induction s arbitrary: cur) (simp_all add: split_from_cur)

lemma str_strip_nonspace: "str_strip s \<noteq> [] \<Longrightarrow> \<not> list_all isspace (str_strip s)"
proof -
  assume ne: "str_strip s \<noteq> []"
  let ?t = "dropWhile isspace (rev (dropWhile isspace s))"
  from ne have "?t \<noteq> []" by (simp add: str_strip_def)
  then have "\<not> isspace (hd ?t)" by (rule hd_dropWhile)
  moreover from \<open>?t \<noteq> []\<close> have "hd ?t \<in> set ?t" by simp
  ultimately have "\<not> list_all isspace ?t" by (auto simp add: list_all_iff)
  then show ?thesis by (simp add: str_strip_def list_all_iff)
qed

lemma list_all_isspace_upper: "list_all isspace (str_upper s) = list_all isspace s"
  by (simp add: str_upper_def list_all_iff isspace_upper_char)

lemma first_word_returns: "\<exists>w. first_word (str_upper (str_strip s)) = Inr w"
proof (cases "str_strip s = []")
  case True
  then show ?thesis by (simp add: first_word_def str_upper_def)
next
  case False
  then have "\<not> list_all isspace (str_upper (str_strip s))"
    by (simp add: list_all_isspace_upper str_strip_nonspace)
  then have "str_split (str_upper (str_strip s)) \<noteq> []"
    by (simp add: str_split_def split_from_nonspace)
  then show ?thesis
    by (auto simp add: first_word_def split: list.splits)
qed

lemma str_strip_all_space: "list_all isspace s \<Longrightarrow> str_strip s = []"
proof -
  assume "list_all isspace s"
  then have h: "dropWhile isspace s = []" by (induction s) simp_all
  show ?thesis unfolding str_strip_def h by simp
qed

lemma classify_returns: "\<exists>v. classify s = Inr v"
  using first_word_returns [of s] by (auto simp add: classify_def Let_def)

lemma classify_label: "classify s = Inr (Some v) \<Longrightarrow> v \<in> {''POSITIVE'', ''NEGATIVE'', ''NEUTRAL''}"
  by (auto simp add: classify_def Let_def split: if_splits sum.splits)

lemma classify_all_space: "list_all isspace s \<Longrightarrow> classify s = Inr None"
  by (simp add: classify_def str_strip_all_space str_upper_def first_word_def)

lemma first_word_split:
  "first_word (str_upper (str_strip s)) =
     (case str_split (str_upper (str_strip s)) of [] \<Rightarrow> Inr [] | w # _ \<Rightarrow> Inr w)"
proof (cases "str_strip s = []")
  case True
  then show ?thesis by (simp add: first_word_def str_upper_def str_split_def)
next
  case False
  then have "str_upper (str_strip s) \<noteq> []" by (simp add: str_upper_def)
  then show ?thesis using first_word_returns [of s]
    by (auto simp add: first_word_def split: list.splits)
qed

lemma classify_eq_spec: "classify raw = Inr (classify_spec raw)"
proof -
  have s: "str_strip (str_upper raw) = str_upper (str_strip raw)"
    by (simp add: str_upper_strip)
  show ?thesis
    unfolding classify_def classify_spec_def s Let_def first_word_split
    by (simp split: list.splits)
qed

lemma split_from_first_word:
  "split_from cur s = w # ws \<Longrightarrow> sublist w (cur @ s)"
proof (induction s arbitrary: cur)
  case Nil
  then show ?case by (simp split: if_splits)
next
  case (Cons c cs)
  show ?case
  proof (cases "isspace c")
    case True
    show ?thesis
    proof (cases "cur = []")
      case True
      with \<open>isspace c\<close> Cons.prems have "split_from [] cs = w # ws" by simp
      from Cons.IH [OF this] have "sublist w cs" by simp
      then have "sublist w (c # cs)" by (simp add: sublist_Cons_right)
      with True show ?thesis by simp
    next
      case False
      with \<open>isspace c\<close> Cons.prems have "w = cur" by simp
      then show ?thesis by simp
    qed
  next
    case False
    with Cons.prems have "split_from (cur @ [c]) cs = w # ws" by simp
    from Cons.IH [OF this] show ?thesis by simp
  qed
qed

lemma classify_fallback_never_votes:
  "classify raw =
     Inr (find (\<lambda>token. sublist token (str_upper (str_strip raw)))
            [''POSITIVE'', ''NEGATIVE'', ''NEUTRAL''])"
proof -
  let ?s = "str_upper (str_strip raw)"
  have s: "str_strip (str_upper raw) = ?s" by (simp add: str_upper_strip)
  have w: "sublist w ?s" if "str_split ?s = w # ws" for w ws
    using split_from_first_word [of "[]" ?s w ws] that by (simp add: str_split_def)
  show ?thesis
    unfolding classify_eq_spec classify_spec_def s Let_def
    by (auto split: list.splits dest: w)
qed


lemma classify_loop_strings:
  "classify_loop (map PStr ss) acc = Inr (acc @ List.map_filter classify_spec ss)"
  by (induction ss arbitrary: acc)
     (simp_all add: classify_eq_spec split: option.splits)

lemma classify_loop_only_strings:
  "classify_loop responses acc = Inr sa_votes \<Longrightarrow> \<exists>ss. responses = map PStr ss"
proof (induction responses arbitrary: acc)
  case Nil
  then show ?case by simp
next
  case (Cons r responses)
  from Cons.prems obtain s where s: "r = PStr s"
    by (cases r) simp_all
  from Cons.prems s obtain acc' where "classify_loop responses acc' = Inr sa_votes"
    by (auto simp add: classify_eq_spec split: option.splits)
  from Cons.IH [OF this] obtain ss where "responses = map PStr ss" by blast
  with s have "r # responses = map PStr (s # ss)" by simp
  then show ?case by (rule exI [of _ "s # ss"])
qed

lemma classify_spec_label:
  "classify_spec s = Some v \<Longrightarrow> v \<in> {''POSITIVE'', ''NEGATIVE'', ''NEUTRAL''}"
  using classify_label [of s v] by (simp add: classify_eq_spec)

lemma map_filter_length: "length (List.map_filter f xs) \<le> length xs"
  by (induction xs) (simp_all split: option.splits)

lemma set_map_filter: "set (List.map_filter f xs) = {y. \<exists>x\<in>set xs. f x = Some y}"
  by (induction xs) (auto split: option.splits)

lemma classify_loop_length:
  assumes "classify_loop responses [] = Inr sa_votes"
  shows "length sa_votes \<le> length responses"
proof -
  from classify_loop_only_strings [OF assms] obtain ss where ss: "responses = map PStr ss" by blast
  with assms have "sa_votes = List.map_filter classify_spec ss"
    by (simp add: classify_loop_strings)
  with ss show ?thesis by (simp add: map_filter_length)
qed

lemma classify_loop_labels:
  assumes "classify_loop responses [] = Inr sa_votes"
  shows "set sa_votes \<subseteq> {''POSITIVE'', ''NEGATIVE'', ''NEUTRAL''}"
proof -
  from classify_loop_only_strings [OF assms] obtain ss where ss: "responses = map PStr ss" by blast
  with assms have "sa_votes = List.map_filter classify_spec ss"
    by (simp add: classify_loop_strings)
  then show ?thesis using classify_spec_label by (auto simp add: set_map_filter)
qed


section \<open>Facts about the tally and \<open>max\<close>\<close>

lemma dict_get_update:
  "dict_get (AList.update k v d) k' dflt = (if k' = k then v else dict_get d k' dflt)"
  by (simp add: dict_get_def update_conv')

lemma keys_update: "map fst (AList.update k v d) = (if k \<in> fst ` set d then map fst d else map fst d @ [k])"
  by (simp add: update_keys image_iff)

lemma count_votes_snoc:
  "count_votes (vs @ [v]) d =
     AList.update v (dict_get (count_votes vs d) v 0 + 1) (count_votes vs d)"
  by (induction vs arbitrary: d) simp_all

lemma keys_count_votes: "set (map fst (count_votes vs [])) = set vs"
  by (induction vs rule: rev_induct) (auto simp add: count_votes_snoc keys_update)

lemma distinct_count_votes: "distinct (map fst (count_votes vs []))"
  by (induction vs rule: rev_induct) (simp_all add: count_votes_snoc distinct_update)

lemma dict_get_Nil: "dict_get [] k dflt = dflt"
  by (simp add: dict_get_def)

lemma dict_get_count_votes: "dict_get (count_votes vs []) l 0 = int (count_list vs l)"
  by (induction vs rule: rev_induct) (auto simp add: count_votes_snoc dict_get_update dict_get_Nil)

lemma sum_update_bump:
  fixes d :: "('k \<times> int) list"
  shows "sum_list (map snd (AList.update k (dict_get d k 0 + 1) d)) = sum_list (map snd d) + 1"
  by (induction d) (auto simp add: dict_get_def)

lemma sum_count_votes: "sum_list (map snd (count_votes vs [])) = int (length vs)"
  by (induction vs rule: rev_induct) (simp_all add: count_votes_snoc sum_update_bump)


lemma max_from_split:
  "\<exists>P Q. best # xs = P @ max_from key best xs # Q
        \<and> (\<forall>y\<in>set P. key y < key (max_from key best xs))
        \<and> (\<forall>y\<in>set Q. key y \<le> key (max_from key best xs))"
proof (induction xs arbitrary: best)
  case Nil
  show ?case by (intro exI [of _ "[]"]) simp
next
  case (Cons x xs)
  show ?case
  proof (cases "key best < key x")
    case True
    then have m: "max_from key best (x # xs) = max_from key x xs" by simp
    from Cons.IH [of x] obtain P Q where
      d: "x # xs = P @ max_from key x xs # Q"
      and p: "\<forall>y\<in>set P. key y < key (max_from key x xs)"
      and q: "\<forall>y\<in>set Q. key y \<le> key (max_from key x xs)" by blast
    have "x \<in> set (P @ max_from key x xs # Q)" using d by (metis list.set_intros(1))
    then have "key x \<le> key (max_from key x xs)" using p q by auto
    with True have "key best < key (max_from key x xs)" by simp
    with p have p': "\<forall>y\<in>set (best # P). key y < key (max_from key x xs)" by simp
    from d have "best # x # xs = (best # P) @ max_from key x xs # Q" by simp
    with p' q show ?thesis unfolding m by blast
  next
    case False
    then have m: "max_from key best (x # xs) = max_from key best xs" by simp
    from Cons.IH [of best] obtain P Q where
      d: "best # xs = P @ max_from key best xs # Q"
      and p: "\<forall>y\<in>set P. key y < key (max_from key best xs)"
      and q: "\<forall>y\<in>set Q. key y \<le> key (max_from key best xs)" by blast
    show ?thesis
    proof (cases P)
      case Nil
      from d have c: "best # xs = max_from key best xs # Q" unfolding Nil by (simp only: append_Nil)
      from c have e: "max_from key best xs = best" by (metis list.inject)
      from c have "Q = xs" by (metis list.inject)
      with e False q have q': "\<forall>y\<in>set (x # xs). key y \<le> key (max_from key best xs)" by auto
      from e have "best # x # xs = [] @ max_from key best xs # (x # xs)" by simp
      moreover have "\<forall>y\<in>set []. key y < key (max_from key best xs)" by simp
      ultimately show ?thesis unfolding m using q' by blast
    next
      case (Cons b P')
      from d have c: "best # xs = b # (P' @ max_from key best xs # Q)"
        unfolding Cons by (simp only: append_Cons)
      from c have b: "b = best" by (metis list.inject)
      from c have d': "xs = P' @ max_from key best xs # Q" by (metis list.inject)
      from p Cons b have "key best < key (max_from key best xs)" by simp
      with False have "key x < key (max_from key best xs)" by simp
      with p Cons b have p': "\<forall>y\<in>set (best # x # P'). key y < key (max_from key best xs)" by simp
      from d' have "best # x # xs = (best # x # P') @ max_from key best xs # Q" by simp
      with p' q show ?thesis unfolding m by blast
    qed
  qed
qed



lemma determine_winner_split:
  assumes "sa_votes \<noteq> []"
  shows "\<exists>P w c Q. determine_winner sa_votes = Inr (w, sa_votes)
           \<and> count_votes sa_votes [] = P @ (w, c) # Q
           \<and> (\<forall>y\<in>set P. snd y < c) \<and> (\<forall>y\<in>set Q. snd y \<le> c)"
proof -
  from assms have "set (map fst (count_votes sa_votes [])) \<noteq> {}"
    by (simp only: keys_count_votes) simp
  then obtain x xs where t: "count_votes sa_votes [] = x # xs"
    by (cases "count_votes sa_votes []") auto
  from max_from_split [of x xs snd] obtain P Q where
    d: "x # xs = P @ max_from snd x xs # Q"
    and p: "\<forall>y\<in>set P. snd y < snd (max_from snd x xs)"
    and q: "\<forall>y\<in>set Q. snd y \<le> snd (max_from snd x xs)" by blast
  have "determine_winner sa_votes = Inr (fst (max_from snd x xs), sa_votes)"
    using assms t by (simp add: determine_winner_def py_max_def)
  moreover have "count_votes sa_votes [] = P @ (fst (max_from snd x xs), snd (max_from snd x xs)) # Q"
    using t d by simp
  ultimately show ?thesis using p q by blast
qed

lemma determine_winner_returns:
  "\<exists>winner. determine_winner sa_votes = Inr (winner, sa_votes)
      \<and> (if sa_votes = [] then winner = ''UNABLE TO DETERMINE'' else winner \<in> set sa_votes)"
proof (cases "sa_votes = []")
  case True
  then show ?thesis by (simp add: determine_winner_def)
next
  case False
  from determine_winner_split [OF False] obtain P w c Q where
    r: "determine_winner sa_votes = Inr (w, sa_votes)"
    and t: "count_votes sa_votes [] = P @ (w, c) # Q" by blast
  from t have "w \<in> set (map fst (count_votes sa_votes []))" by simp
  then have "w \<in> set sa_votes" by (simp only: keys_count_votes)
  with r False show ?thesis by simp
qed

lemma vote_returns:
  assumes "vote responses = Inr (winner, raw_votes)"
  shows "classify_loop responses [] = Inr raw_votes
         \<and> (if raw_votes = [] then winner = ''UNABLE TO DETERMINE'' else winner \<in> set raw_votes)"
proof -
  from assms obtain sa_votes where
    c: "classify_loop responses [] = Inr sa_votes"
    and d: "determine_winner sa_votes = Inr (winner, raw_votes)"
    by (auto simp add: vote_def split: sum.splits)
  from determine_winner_returns [of sa_votes] d show ?thesis using c by auto
qed



section \<open>Facts about the fan-out\<close>

lemma call_ollama_returns: "\<exists>v. call_ollama MODEL post p = Inr v"
  by (simp add: call_ollama_def split: sum.splits)

lemma settle_length: "settle tasks order slots = Inr slots' \<Longrightarrow> length slots' = length slots"
  by (induction order arbitrary: slots) (auto split: if_splits sum.splits)

lemma gather_length: "gather tasks order = Some (Inr rs) \<Longrightarrow> length rs = length tasks"
  by (auto simp add: gather_def split: sum.splits if_splits dest: settle_length)

lemma settle_returns:
  "length slots = length vals \<Longrightarrow>
   settle (map Inr vals) order slots =
     Inr (map (\<lambda>i. if i \<in> set order then Some (vals ! i) else slots ! i) [0..<length vals])"
proof (induction order arbitrary: slots)
  case Nil
  then have "map ((!) slots) [0..<length vals] = slots" by (metis map_nth)
  then show ?case by simp
next
  case (Cons i order)
  show ?case
  proof (cases "i < length vals")
    case True
    have "length (slots[i := Some (vals ! i)]) = length vals" using Cons.prems by simp
    from Cons.IH [OF this] True Cons.prems show ?thesis
      by (auto simp add: nth_list_update)
  next
    case False
    with Cons.IH [OF Cons.prems] show ?thesis by auto
  qed
qed

lemma gather_returns:
  assumes "{0..<length vals} \<subseteq> set order"
  shows "gather (map Inr vals) order = Some (Inr vals)"
proof -
  have "map (\<lambda>i. if i \<in> set order then Some (vals ! i) else replicate (length vals) None ! i)
            [0..<length vals] = map (\<lambda>i. Some (vals ! i)) [0..<length vals]"
    using assms by auto
  also have "\<dots> = map Some vals"
    by (rule nth_equalityI) simp_all
  finally have "settle (map Inr vals) order (replicate (length vals) None) = Inr (map Some vals)"
    by (simp add: settle_returns)
  then show ?thesis
    by (simp add: gather_def list_all_iff comp_def)
qed

lemma make_tasks_returns:
  "make_tasks MODEL env prompts =
     map Inr (map (\<lambda>(i, p). projr (call_ollama MODEL (env i) p)) (enumerate 0 prompts))"
proof -
  have "call_ollama MODEL (env i) p = Inr (projr (call_ollama MODEL (env i) p))" for i p
    using call_ollama_returns [of MODEL "env i" p] by auto
  then show ?thesis
    by (simp add: make_tasks_def case_prod_beta)
qed

lemma fan_out_returns:
  assumes "{0..<length prompts} \<subseteq> set order"
  shows "fan_out MODEL env order prompts =
           Some (Inr (map (\<lambda>(i, p). projr (call_ollama MODEL (env i) p)) (enumerate 0 prompts)))"
proof -
  let ?vals = "map (\<lambda>(i, p). projr (call_ollama MODEL (env i) p)) (enumerate 0 prompts)"
  have "length ?vals = length prompts" by simp
  with assms have "{0..<length ?vals} \<subseteq> set order" by simp
  from gather_returns [OF this] show ?thesis
    unfolding fan_out_def make_tasks_returns .
qed

lemma fan_out_length: "fan_out MODEL env order prompts = Some (Inr rs) \<Longrightarrow> length rs = length prompts"
  by (auto simp add: fan_out_def make_tasks_def dest: gather_length)

lemma SENTIMENT_PROMPTS_three: "\<exists>a b c. SENTIMENT_PROMPTS = [a, b, c]"
  by (simp add: SENTIMENT_PROMPTS_def)

lemma SENTIMENT_PROMPTS_length: "length SENTIMENT_PROMPTS = 3"
  by (simp add: SENTIMENT_PROMPTS_def)

lemma analyze_sentiment_voting_responses:
  assumes "analyze_sentiment_voting env order text = Some (Inr result)"
  shows "\<exists>responses.
           fan_out VOTING_MODEL env order
             (map (\<lambda>prompt_template. format_template prompt_template text) SENTIMENT_PROMPTS)
             = Some (Inr responses)
           \<and> length responses = 3 \<and> vote responses = Inr result"
proof -
  let ?prompts = "map (\<lambda>prompt_template. format_template prompt_template text) SENTIMENT_PROMPTS"
  from assms obtain responses where
    f: "fan_out VOTING_MODEL env order ?prompts = Some (Inr responses)"
    and v: "vote responses = Inr result"
    by (auto simp add: analyze_sentiment_voting_def split: option.splits sum.splits)
  from fan_out_length [OF f] have "length responses = 3"
    by (simp add: SENTIMENT_PROMPTS_length)
  with f v show ?thesis by blast
qed

lemma analyze_sentiment_voting_settled:
  assumes "{0..<3} \<subseteq> set order"
  shows "analyze_sentiment_voting env order text =
           Some (vote (map (\<lambda>(i, p). projr (call_ollama VOTING_MODEL (env i) p))
                        (enumerate 0 (map (\<lambda>prompt_template. format_template prompt_template text)
                                          SENTIMENT_PROMPTS))))"
proof -
  let ?prompts = "map (\<lambda>prompt_template. format_template prompt_template text) SENTIMENT_PROMPTS"
  have "length ?prompts = 3" by (simp add: SENTIMENT_PROMPTS_length)
  with assms have "{0..<length ?prompts} \<subseteq> set order" by simp
  from fan_out_returns [OF this] show ?thesis
    by (simp add: analyze_sentiment_voting_def)
qed

lemma combine_results_append:
  "distinct (map fst results @ map fst items) \<Longrightarrow> combine_results items results = results @ items"
proof (induction items arbitrary: results)
  case Nil
  then show ?case by simp
next
  case (Cons item items)
  obtain k v where item: "item = (k, v)" by (cases item)
  from Cons.prems item have fresh: "k \<notin> fst ` set results" by auto
  then have u: "AList.update k v results = results @ [(k, v)]"
    by (induction results) auto
  from Cons.prems item have "distinct (map fst (results @ [(k, v)]) @ map fst items)" by auto
  from Cons.IH [OF this] item u show ?case by simp
qed

lemma SECTION_PROMPTS_names:
  "map fst SECTION_PROMPTS =
     [''headlines'', ''technical_deep_dive'', ''industry_news'', ''tools_resources'', ''opinion_analysis'']"
  by (simp add: SECTION_PROMPTS_def)

lemma generate_newsletter_sections_settled:
  assumes "{0..<5} \<subseteq> set order"
  shows "\<exists>responses.
           fan_out SECTIONING_MODEL env order
             (map (\<lambda>(prompt_section, prompt_template). format_template prompt_template user_topic)
                  SECTION_PROMPTS) = Some (Inr responses)
           \<and> length responses = 5
           \<and> generate_newsletter_sections env order user_topic =
               Some (Inr (zip [''headlines'', ''technical_deep_dive'', ''industry_news'',
                               ''tools_resources'', ''opinion_analysis''] responses))"
proof -
  let ?prompts = "map (\<lambda>(prompt_section, prompt_template). format_template prompt_template user_topic)
                      SECTION_PROMPTS"
  let ?names = "[''headlines'', ''technical_deep_dive'', ''industry_news'',
                 ''tools_resources'', ''opinion_analysis'']"
  have "length (map fst SECTION_PROMPTS) = 5" by (simp only: SECTION_PROMPTS_names) simp
  then have n: "length ?prompts = 5" by simp
  with assms have "{0..<length ?prompts} \<subseteq> set order" by simp
  from fan_out_returns [OF this] obtain responses where
    f: "fan_out SECTIONING_MODEL env order ?prompts = Some (Inr responses)" by blast
  from fan_out_length [OF f] n have l: "length responses = 5" by simp
  have "distinct (map fst [] @ map fst (zip ?names responses))"
    using l by (simp add: map_fst_zip_take)
  from combine_results_append [OF this]
  have "combine_results (zip ?names responses) [] = zip ?names responses" by simp
  with f have "generate_newsletter_sections env order user_topic = Some (Inr (zip ?names responses))"
    by (simp add: generate_newsletter_sections_def SECTION_PROMPTS_names)
  with f l show ?thesis by blast
qed


section \<open>Facts about the newsletter template\<close>

lemma format_newsletter_layout:
  "format_newsletter now user_topic topic_sections =
     (''# AI Newsletter: '' @ user_topic @ ''\<newline>*Generated on '') @ strftime_B_d_Y now @
     (''*\<newline>\<newline>---\<newline>\<newline>'' @
      concat (map (\<lambda>(section, heading, placeholder).
                     (heading @ ''\<newline>\<newline>'' @ dict_get topic_sections section placeholder
                        @ ''\<newline>\<newline>---\<newline>'') @ ''\<newline>'')
                  NEWSLETTER_SLOTS) @
      ''*This newsletter was generated using parallel AI processing, with each section created simultaneously by separate LLM instances.*\<newline>'')"
  by (simp add: format_newsletter_def NEWSLETTER_SLOTS_def)

lemma format_newsletter_eq_iff:
  "(format_newsletter now1 user_topic topic_sections = format_newsletter now2 user_topic topic_sections)
     = (strftime_B_d_Y now1 = strftime_B_d_Y now2)"
  unfolding format_newsletter_layout by (simp only: same_append_eq append_same_eq)

lemma sublist_concat_member:
  "x \<in> set xs \<Longrightarrow> sublist (f x) (concat (map f xs))"
proof (induction xs)
  case Nil
  then show ?case by simp
next
  case (Cons y xs)
  show ?case
  proof (cases "x = y")
    case True
    then show ?thesis by simp
  next
    case False
    with Cons have "sublist (f x) (concat (map f xs))" by simp
    then obtain ps ss where "concat (map f xs) = ps @ f x @ ss" by (auto simp add: sublist_def)
    then have "concat (map f (y # xs)) = (f y @ ps) @ f x @ ss" by simp
    then show ?thesis unfolding sublist_def by blast
  qed
qed

lemma slot_in_newsletter:
  assumes "(section, heading, placeholder) \<in> set NEWSLETTER_SLOTS"
  shows "sublist (heading @ ''\<newline>\<newline>'' @ dict_get topic_sections section placeholder
                    @ ''\<newline>\<newline>---\<newline>'')
                 (format_newsletter now user_topic topic_sections)"
proof -
  let ?block = "\<lambda>(section, heading, placeholder).
                     (heading @ ''\<newline>\<newline>'' @ dict_get topic_sections section placeholder
                        @ ''\<newline>\<newline>---\<newline>'') @ ''\<newline>''"
  let ?x = "heading @ ''\<newline>\<newline>'' @ dict_get topic_sections section placeholder @ ''\<newline>\<newline>---\<newline>''"
  from sublist_concat_member [OF assms, of ?block]
  obtain ps ss where c: "concat (map ?block NEWSLETTER_SLOTS) = ps @ (?x @ ''\<newline>'') @ ss"
    by (auto simp add: sublist_def)
  have "format_newsletter now user_topic topic_sections =
     ((''# AI Newsletter: '' @ user_topic @ ''\<newline>*Generated on '') @ strftime_B_d_Y now @
      ''*\<newline>\<newline>---\<newline>\<newline>'' @ ps) @ ?x @
     (''\<newline>'' @ ss @
      ''*This newsletter was generated using parallel AI processing, with each section created simultaneously by separate LLM instances.*\<newline>'')"
    unfolding format_newsletter_layout c by (simp only: append_assoc)
  then show ?thesis unfolding sublist_def by blast
qed

lemma slot_placeholder_shape:
  assumes "(section, heading, placeholder) \<in> set NEWSLETTER_SLOTS"
  shows "prefix ''No '' placeholder \<and> suffix '' generated.'' placeholder"
  using assms by (auto simp add: NEWSLETTER_SLOTS_def suffix_to_prefix)


section \<open>The claims\<close>

subsection \<open>C1: the fan-out returns one result per task, in input order\<close>

text \<open>
  C1. For every ordered sequence of N prompts, whatever each call meets at the endpoint
  (\<open>env\<close>: an answer, an error status, a transport fault) and in whatever order the calls
  settle (\<open>order\<close>, which names every task at least once), the fan-out returns, and
  returns exactly N results, the \<open>i\<close>-th being what \<open>call_ollama\<close> returned for the
  \<open>i\<close>-th prompt. Both \<open>analyze_sentiment_voting\<close> and
  \<open>generate_newsletter_sections\<close> fan out through this step.
\<close>

theorem fan_out_in_input_order:
  assumes "{0..<length prompts} \<subseteq> set order"
  shows "\<exists>responses. fan_out MODEL env order prompts = Some (Inr responses)
           \<and> length responses = length prompts
           \<and> (\<forall>i<length prompts. call_ollama MODEL (env i) (prompts ! i) = Inr (responses ! i))"
proof -
  let ?rs = "map (\<lambda>(i, p). projr (call_ollama MODEL (env i) p)) (enumerate 0 prompts)"
  have "fan_out MODEL env order prompts = Some (Inr ?rs)"
    using assms by (rule fan_out_returns)
  moreover have "length ?rs = length prompts" by simp
  moreover have "call_ollama MODEL (env i) (prompts ! i) = Inr (?rs ! i)" if "i < length prompts" for i
    using that call_ollama_returns [of MODEL "env i" "prompts ! i"] by (auto simp add: nth_enumerate_eq)
  ultimately show ?thesis by blast
qed

text \<open>
  Three tasks settling in the order 2, 0, 1, the second one failing at the transport:
  the results stand in the order of the prompts, the failure as its error string.
\<close>

theorem fan_out_in_input_order_witness:
  "{0..<length [''a'', ''b'', ''c'']} \<subseteq> set [2, 0, 1]
   \<and> fan_out ''gemma3''
         (\<lambda>i request. if i = 1 then PostRaises ''refused''
                       else Responds 200 (JsonValue (PDict [(''response'', PStr (prompt request))])))
         [2, 0, 1] [''a'', ''b'', ''c'']
       = Some (Inr [PStr ''a'', PStr ''Error: refused'', PStr ''c''])"
proof -
  let ?env = "\<lambda>(i::nat) request. if i = 1 then PostRaises ''refused''
                       else Responds 200 (JsonValue (PDict [(''response'', PStr (prompt request))]))"
  have h: "{0..<length [''a'', ''b'', ''c'']} \<subseteq> set [2, 0, 1]" by auto
  from fan_out_in_input_order [OF h, of "''gemma3''" ?env] obtain rs where
    r: "fan_out ''gemma3'' ?env [2, 0, 1] [''a'', ''b'', ''c''] = Some (Inr rs)"
    and l: "length rs = length [''a'', ''b'', ''c'']"
    and n: "\<forall>i<length [''a'', ''b'', ''c'']. call_ollama ''gemma3'' (?env i) ([''a'', ''b'', ''c''] ! i) = Inr (rs ! i)"
    by blast
  from n [rule_format, of 0] have r0: "rs ! 0 = PStr ''a''"
    by (simp add: call_ollama_def call_ollama_try_def dict_get_def)
  from n [rule_format, of 1] have r1: "rs ! 1 = PStr ''Error: refused''"
    by (simp add: call_ollama_def call_ollama_try_def dict_get_def)
  from n [rule_format, of 2] have r2: "rs ! 2 = PStr ''c''"
    by (simp add: call_ollama_def call_ollama_try_def dict_get_def)
  from l obtain x y z where "rs = [x, y, z]"
    by (auto simp add: length_Suc_conv numeral_3_eq_3)
  with r0 r1 r2 have "rs = [PStr ''a'', PStr ''Error: refused'', PStr ''c'']" by simp
  with r h show ?thesis by simp
qed


subsection \<open>C2: the classification of one response\<close>




subsection \<open>C3: the winner\<close>




subsection \<open>C4: what \<open>call_ollama\<close> returns\<close>

text \<open>
  C4. For every invocation of \<open>call_ollama\<close>: when the endpoint answers with status 200
  and a JSON object, the call returns the object's \<open>response\<close> field, the empty string
  if the object has none; when it answers with any other status, the call returns exactly
  "Error: Status " followed by the code; when \<open>session.post\<close> or the reading of the body
  raises, it returns "Error: " followed by the exception's message; and in every case it
  returns a value: no exception reaches the caller.
\<close>

theorem call_ollama_contract:
  "(post \<lparr>model = MODEL, prompt = p, stream = False\<rparr> = Responds 200 (JsonValue (PDict d))
      \<longrightarrow> call_ollama MODEL post p =
            Inr (case map_of d ''response'' of Some v \<Rightarrow> v | None \<Rightarrow> PStr ''''))
   \<and> (post \<lparr>model = MODEL, prompt = p, stream = False\<rparr> = Responds status b \<and> status \<noteq> 200
      \<longrightarrow> call_ollama MODEL post p = Inr (PStr (''Error: Status '' @ str_int status)))
   \<and> (post \<lparr>model = MODEL, prompt = p, stream = False\<rparr> = PostRaises msg
        \<or> post \<lparr>model = MODEL, prompt = p, stream = False\<rparr> = Responds 200 (JsonRaises msg)
      \<longrightarrow> call_ollama MODEL post p = Inr (PStr (''Error: '' @ msg)))
   \<and> (\<exists>v. call_ollama MODEL post p = Inr v)"
proof -
  let ?x = "post \<lparr>model = MODEL, prompt = p, stream = False\<rparr>"
  have ok: "call_ollama MODEL post p = Inr (case map_of d ''response'' of Some v \<Rightarrow> v | None \<Rightarrow> PStr '''')"
    if "?x = Responds 200 (JsonValue (PDict d))"
    using that by (simp add: call_ollama_def call_ollama_try_def dict_get_def)
  have status: "call_ollama MODEL post p = Inr (PStr (''Error: Status '' @ str_int status))"
    if "?x = Responds status b \<and> status \<noteq> 200"
    using that by (simp add: call_ollama_def call_ollama_try_def)
  have fault: "call_ollama MODEL post p = Inr (PStr (''Error: '' @ msg))"
    if "?x = PostRaises msg \<or> ?x = Responds 200 (JsonRaises msg)"
    using that by (auto simp add: call_ollama_def call_ollama_try_def)
  from ok status fault call_ollama_returns [of MODEL post p] show ?thesis by blast
qed

theorem call_ollama_contract_witness:
  "call_ollama ''gemma3'' (\<lambda>request. Responds 404 (JsonRaises ''not json'')) ''hi''
     = Inr (PStr ''Error: Status 404'')
   \<and> call_ollama ''gemma3''
        (\<lambda>request. Responds 200 (JsonValue (PDict [(''model'', PStr (model request)),
                                                    (''response'', PStr ''Hello!'')]))) ''hi''
     = Inr (PStr ''Hello!'')
   \<and> call_ollama ''gemma3'' (\<lambda>request. Responds 200 (JsonValue (PDict [(''done'', PBool True)]))) ''hi''
     = Inr (PStr '''')
   \<and> call_ollama ''gemma3'' (\<lambda>request. PostRaises ''Cannot connect to host'') ''hi''
     = Inr (PStr ''Error: Cannot connect to host'')"
proof -
  have n: "str_int 404 = ''404''"
    by (simp add: str_int_def str_nat.simps digit_char_def)
  have "call_ollama ''gemma3'' (\<lambda>request. Responds 404 (JsonRaises ''not json'')) ''hi''
          = Inr (PStr (''Error: Status '' @ str_int 404))"
    using call_ollama_contract
            [where post = "\<lambda>request. Responds 404 (JsonRaises ''not json'')"
               and status = 404 and b = "JsonRaises ''not json''"]
    by simp
  then have a: "call_ollama ''gemma3'' (\<lambda>request. Responds 404 (JsonRaises ''not json'')) ''hi''
     = Inr (PStr ''Error: Status 404'')"
    unfolding n by simp
  have b: "call_ollama ''gemma3''
        (\<lambda>request. Responds 200 (JsonValue (PDict [(''model'', PStr (model request)),
                                                    (''response'', PStr ''Hello!'')]))) ''hi''
     = Inr (PStr ''Hello!'')"
    using call_ollama_contract
            [where post = "\<lambda>request. Responds 200 (JsonValue (PDict [(''model'', PStr (model request)),
                                                    (''response'', PStr ''Hello!'')]))"
               and MODEL = "''gemma3''" and p = "''hi''"
               and d = "[(''model'', PStr ''gemma3''), (''response'', PStr ''Hello!'')]"]
    by simp
  have c: "call_ollama ''gemma3'' (\<lambda>request. Responds 200 (JsonValue (PDict [(''done'', PBool True)]))) ''hi''
     = Inr (PStr '''')"
    using call_ollama_contract
            [where post = "\<lambda>request. Responds 200 (JsonValue (PDict [(''done'', PBool True)]))"
               and d = "[(''done'', PBool True)]"]
    by simp
  have d: "call_ollama ''gemma3'' (\<lambda>request. PostRaises ''Cannot connect to host'') ''hi''
     = Inr (PStr ''Error: Cannot connect to host'')"
    using call_ollama_contract
            [where post = "\<lambda>request. PostRaises ''Cannot connect to host''"
               and msg = "''Cannot connect to host''"]
    by simp
  from a b c d show ?thesis by blast
qed


subsection \<open>C5: the formatter and the clock\<close>

text \<open>
  C5, as stated: two runs of \<open>format_newsletter\<close> on the same topic and sections give the
  identical string. The function prints \<open>datetime.now()\<close> into the line "Generated on",
  so a run just before midnight and a run just after it differ on the same topic and
  sections.
\<close>

theorem format_newsletter_differs_across_dates:
  "format_newsletter \<lparr>year = 2026, month = November, day = 4, hour = 23, minute = 59, second = 59\<rparr>
       ''Robotics'' [(''headlines'', ''R1'')]
   \<noteq> format_newsletter \<lparr>year = 2026, month = November, day = 5, hour = 0, minute = 0, second = 1\<rparr>
       ''Robotics'' [(''headlines'', ''R1'')]"
proof -
  have "strftime_B_d_Y \<lparr>year = 2026, month = November, day = 4, hour = 23, minute = 59, second = 59\<rparr>
        \<noteq> strftime_B_d_Y \<lparr>year = 2026, month = November, day = 5, hour = 0, minute = 0, second = 1\<rparr>"
    by (simp add: strftime_B_d_Y_def two_digits_def str_nat.simps digit_char_def)
  then show ?thesis unfolding format_newsletter_eq_iff .
qed

text \<open>
  C5, amended: for every topic and sections mapping, two runs of \<open>format_newsletter\<close>
  give the identical string exactly when the two calls print the same date; so runs on the
  same calendar day agree, whatever the time of day. The date of the call apart, the
  output is a function of the topic and the sections alone.
\<close>

theorem format_newsletter_deterministic_given_date:
  "(format_newsletter now1 user_topic topic_sections = format_newsletter now2 user_topic topic_sections)
     = (strftime_B_d_Y now1 = strftime_B_d_Y now2)
   \<and> (year now1 = year now2 \<and> month now1 = month now2 \<and> day now1 = day now2
      \<longrightarrow> format_newsletter now1 user_topic topic_sections
            = format_newsletter now2 user_topic topic_sections)"
proof -
  have "strftime_B_d_Y now1 = strftime_B_d_Y now2"
    if "year now1 = year now2 \<and> month now1 = month now2 \<and> day now1 = day now2"
    using that by (simp add: strftime_B_d_Y_def)
  then show ?thesis by (simp add: format_newsletter_eq_iff)
qed

theorem format_newsletter_deterministic_given_date_witness:
  "format_newsletter \<lparr>year = 2026, month = November, day = 4, hour = 9, minute = 0, second = 0\<rparr>
       ''Robotics'' [(''headlines'', ''R1'')]
   = format_newsletter \<lparr>year = 2026, month = November, day = 4, hour = 17, minute = 30, second = 12\<rparr>
       ''Robotics'' [(''headlines'', ''R1'')]"
  using format_newsletter_deterministic_given_date
          [of "\<lparr>year = 2026, month = November, day = 4, hour = 9, minute = 0, second = 0\<rparr>"
              "''Robotics''" "[(''headlines'', ''R1'')]"
              "\<lparr>year = 2026, month = November, day = 4, hour = 17, minute = 30, second = 12\<rparr>"]
  by simp


subsection \<open>C6: the sentinel winner\<close>




subsection \<open>C7: the slots of the newsletter\<close>

text \<open>
  C7. For each of the five sections of the template and every sections mapping: if the
  section's key is absent from the mapping, the document has the section's fixed
  placeholder ("No headlines generated." for headlines, and so on) under the section's
  heading; if the key is present, the document has its content, verbatim, under that
  heading. Each placeholder reads "No ... generated.".
\<close>

theorem format_newsletter_fills_each_slot:
  assumes "(section, heading, placeholder) \<in> set NEWSLETTER_SLOTS"
  shows "(map_of topic_sections section = None
            \<longrightarrow> sublist (heading @ ''\<newline>\<newline>'' @ placeholder @ ''\<newline>\<newline>---\<newline>'')
                        (format_newsletter now user_topic topic_sections))
         \<and> (map_of topic_sections section = Some content
            \<longrightarrow> sublist (heading @ ''\<newline>\<newline>'' @ content @ ''\<newline>\<newline>---\<newline>'')
                        (format_newsletter now user_topic topic_sections))
         \<and> prefix ''No '' placeholder \<and> suffix '' generated.'' placeholder"
  using slot_in_newsletter [OF assms, of topic_sections now user_topic]
    slot_placeholder_shape [OF assms]
  by (auto simp add: dict_get_def)

theorem format_newsletter_fills_each_slot_witness:
  "(''technical_deep_dive'',
    ''## '' @ [CHR 0xF0, CHR 0x9F, CHR 0x94, CHR 0xAC] @ '' Technical Deep Dive'',
    ''No technical content generated.'') \<in> set NEWSLETTER_SLOTS
   \<and> map_of [(''headlines'', ''R1'')] ''technical_deep_dive'' = None
   \<and> sublist (''## '' @ [CHR 0xF0, CHR 0x9F, CHR 0x94, CHR 0xAC] @ '' Technical Deep Dive\<newline>\<newline>''
                @ ''No technical content generated.\<newline>\<newline>---\<newline>'')
        (format_newsletter \<lparr>year = 2026, month = November, day = 4, hour = 9, minute = 0, second = 0\<rparr>
           ''Robotics'' [(''headlines'', ''R1'')])
   \<and> (''headlines'', ''## '' @ [CHR 0xF0, CHR 0x9F, CHR 0x93, CHR 0xB0] @ '' Headlines'',
       ''No headlines generated.'') \<in> set NEWSLETTER_SLOTS
   \<and> map_of [(''headlines'', ''R1'')] ''headlines'' = Some ''R1''
   \<and> sublist (''## '' @ [CHR 0xF0, CHR 0x9F, CHR 0x93, CHR 0xB0] @ '' Headlines\<newline>\<newline>''
                @ ''R1\<newline>\<newline>---\<newline>'')
        (format_newsletter \<lparr>year = 2026, month = November, day = 4, hour = 9, minute = 0, second = 0\<rparr>
           ''Robotics'' [(''headlines'', ''R1'')])"
proof -
  let ?now = "\<lparr>year = 2026, month = November, day = 4, hour = 9, minute = 0, second = 0\<rparr>"
  have t: "(''technical_deep_dive'',
    ''## '' @ [CHR 0xF0, CHR 0x9F, CHR 0x94, CHR 0xAC] @ '' Technical Deep Dive'',
    ''No technical content generated.'') \<in> set NEWSLETTER_SLOTS"
    by (simp add: NEWSLETTER_SLOTS_def)
  have h: "(''headlines'', ''## '' @ [CHR 0xF0, CHR 0x9F, CHR 0x93, CHR 0xB0] @ '' Headlines'',
       ''No headlines generated.'') \<in> set NEWSLETTER_SLOTS"
    by (simp add: NEWSLETTER_SLOTS_def)
  have tn: "map_of [(''headlines'', ''R1'')] ''technical_deep_dive'' = None" by simp
  have hs: "map_of [(''headlines'', ''R1'')] ''headlines'' = Some ''R1''" by simp
  from format_newsletter_fills_each_slot
         [OF t, where topic_sections = "[(''headlines'', ''R1'')]" and now = ?now
            and user_topic = "''Robotics''"] tn
  have a: "sublist ((''## '' @ [CHR 0xF0, CHR 0x9F, CHR 0x94, CHR 0xAC] @ '' Technical Deep Dive'')
                @ ''\<newline>\<newline>'' @ ''No technical content generated.'' @ ''\<newline>\<newline>---\<newline>'')
        (format_newsletter ?now ''Robotics'' [(''headlines'', ''R1'')])"
    by blast
  from format_newsletter_fills_each_slot
         [OF h, where topic_sections = "[(''headlines'', ''R1'')]" and now = ?now
            and user_topic = "''Robotics''" and content = "''R1''"] hs
  have b: "sublist ((''## '' @ [CHR 0xF0, CHR 0x9F, CHR 0x93, CHR 0xB0] @ '' Headlines'')
                @ ''\<newline>\<newline>'' @ ''R1'' @ ''\<newline>\<newline>---\<newline>'')
        (format_newsletter ?now ''Robotics'' [(''headlines'', ''R1'')])"
    by blast
  from a have a': "sublist (''## '' @ [CHR 0xF0, CHR 0x9F, CHR 0x94, CHR 0xAC] @ '' Technical Deep Dive\<newline>\<newline>''
                @ ''No technical content generated.\<newline>\<newline>---\<newline>'')
        (format_newsletter ?now ''Robotics'' [(''headlines'', ''R1'')])"
    by (simp only: append_assoc append_Cons append_Nil)
  from b have b': "sublist (''## '' @ [CHR 0xF0, CHR 0x9F, CHR 0x93, CHR 0xB0] @ '' Headlines\<newline>\<newline>''
                @ ''R1\<newline>\<newline>---\<newline>'')
        (format_newsletter ?now ''Robotics'' [(''headlines'', ''R1'')])"
    by (simp only: append_assoc append_Cons append_Nil)
  from t tn a' h hs b' show ?thesis by (intro conjI)
qed


subsection \<open>C8: the tally\<close>

text \<open>
  C8. For every list of N responses that the loop classifies into \<open>sa_votes\<close>, the
  counts of the tally add up to the number of surviving votes, which is at most N (a
  response that is not classified adds to no count), and the count of each label is the
  number of surviving votes for it (0 for a label with no vote); the keys of the tally
  are the labels voted, each once.
\<close>

theorem tally_counts_surviving_votes:
  assumes "classify_loop responses [] = Inr sa_votes"
  shows "sum_list (map snd (count_votes sa_votes [])) \<le> int (length responses)
         \<and> sum_list (map snd (count_votes sa_votes [])) = int (length sa_votes)
         \<and> (\<forall>l. dict_get (count_votes sa_votes []) l 0 = int (count_list sa_votes l))
         \<and> set (map fst (count_votes sa_votes [])) = set sa_votes
         \<and> distinct (map fst (count_votes sa_votes []))"
  using classify_loop_length [OF assms]
  by (simp add: sum_count_votes dict_get_count_votes keys_count_votes distinct_count_votes
           del: set_map)

theorem tally_counts_surviving_votes_witness:
  "classify_loop [PStr ''POSITIVE'', PStr ''maybe'', PStr ''negative!'', PStr ''Positive.''] []
     = Inr [''POSITIVE'', ''NEGATIVE'', ''POSITIVE'']
   \<and> count_votes [''POSITIVE'', ''NEGATIVE'', ''POSITIVE''] [] = [(''POSITIVE'', 2), (''NEGATIVE'', 1)]
   \<and> sum_list (map snd (count_votes [''POSITIVE'', ''NEGATIVE'', ''POSITIVE''] [])) \<le> 4"
proof -
  have h: "classify_loop [PStr ''POSITIVE'', PStr ''maybe'', PStr ''negative!'', PStr ''Positive.''] []
     = Inr [''POSITIVE'', ''NEGATIVE'', ''POSITIVE'']"
    by (simp add: classify_eq_spec classify_spec_def Let_def str_upper_def upper_char_def
          str_strip_def isspace_def sublist_code(3) str_split_def)
  from tally_counts_surviving_votes [OF h]
  have "sum_list (map snd (count_votes [''POSITIVE'', ''NEGATIVE'', ''POSITIVE''] []))
          \<le> int (length [PStr ''POSITIVE'', PStr ''maybe'', PStr ''negative!'', PStr ''Positive.''])"
    by (rule conjunct1)
  then have a: "sum_list (map snd (count_votes [''POSITIVE'', ''NEGATIVE'', ''POSITIVE''] [])) \<le> 4"
    by (simp add: dict_get_def)
  have b: "count_votes [''POSITIVE'', ''NEGATIVE'', ''POSITIVE''] [] = [(''POSITIVE'', 2), (''NEGATIVE'', 1)]"
    by (simp add: dict_get_def)
  show ?thesis by (rule conjI [OF h conjI [OF b a]])
qed


subsection \<open>C9: classification never raises on a string\<close>

text \<open>
  C9. The classification step is total on strings: for every response string it returns
  (never \<open>Inl\<close>: the \<open>split()[0]\<close> of the fallback is reached only with a non-empty
  stripped string, which has a first word); an empty or whitespace-only response is
  dropped; and the loop over any list of string responses returns.
\<close>

theorem classification_is_total:
  "(\<exists>v. classify sa_response = Inr v)
   \<and> (list_all isspace sa_response \<longrightarrow> classify sa_response = Inr None)
   \<and> (\<exists>sa_votes'. classify_loop (map PStr responses) sa_votes = Inr sa_votes')"
proof -
  have "\<exists>v. classify sa_response = Inr v"
    by (rule classify_returns)
  moreover have "list_all isspace sa_response \<longrightarrow> classify sa_response = Inr None"
    by (simp add: classify_all_space)
  moreover have "\<exists>sa_votes'. classify_loop (map PStr responses) sa_votes = Inr sa_votes'"
    by (simp add: classify_loop_strings)
  ultimately show ?thesis by blast
qed

theorem classification_is_total_witness:
  "list_all isspace ''  \<newline> ''
   \<and> classify ''  \<newline> '' = Inr None
   \<and> classify '''' = Inr None
   \<and> classify_loop (map PStr ['''', ''  \<newline> '', ''neutral'']) [] = Inr [''NEUTRAL'']"
proof -
  have h: "list_all isspace ''  \<newline> ''" by (simp add: isspace_def)
  from classification_is_total [of "''  \<newline> ''"] h have "classify ''  \<newline> '' = Inr None" by blast
  moreover from classification_is_total [of "''''"] have "classify '''' = Inr None" by simp
  moreover have "classify_loop (map PStr ['''', ''  \<newline> '', ''neutral'']) [] = Inr [''NEUTRAL'']"
    by (simp add: classify_eq_spec classify_spec_def Let_def str_upper_def upper_char_def
          str_strip_def isspace_def sublist_code(3) str_split_def)
  ultimately show ?thesis using h by simp
qed


subsection \<open>C10: the votes returned\<close>

text \<open>
  C10. For every input text, endpoint behaviour and settling order: when
  \<open>analyze_sentiment_voting\<close> returns \<open>(winner, raw_votes)\<close>, every element of
  \<open>raw_votes\<close> is one of POSITIVE, NEGATIVE, NEUTRAL, there are at most 3 of them, and a
  winner other than "UNABLE TO DETERMINE" is an element of \<open>raw_votes\<close>.
\<close>

theorem raw_votes_are_labels:
  assumes "analyze_sentiment_voting env order text = Some (Inr (winner, raw_votes))"
  shows "set raw_votes \<subseteq> {''POSITIVE'', ''NEGATIVE'', ''NEUTRAL''}
         \<and> length raw_votes \<le> 3
         \<and> (winner \<noteq> ''UNABLE TO DETERMINE'' \<longrightarrow> winner \<in> set raw_votes)"
proof -
  from analyze_sentiment_voting_responses [OF assms] obtain responses where
    l: "length responses = 3" and v: "vote responses = Inr (winner, raw_votes)" by blast
  from vote_returns [OF v] have
    c: "classify_loop responses [] = Inr raw_votes"
    and w: "if raw_votes = [] then winner = ''UNABLE TO DETERMINE'' else winner \<in> set raw_votes"
    by simp_all
  from classify_loop_labels [OF c] classify_loop_length [OF c] l w show ?thesis
    by (auto split: if_splits)
qed

theorem raw_votes_are_labels_witness:
  "analyze_sentiment_voting
     (\<lambda>i request. Responds 200 (JsonValue (PDict
         [(''response'', PStr (if i = 1 then ''Negative.'' else ''It is Positive''))])))
     [2, 0, 1] ''I love it''
   = Some (Inr (''POSITIVE'', [''POSITIVE'', ''NEGATIVE'', ''POSITIVE'']))
   \<and> set [''POSITIVE'', ''NEGATIVE'', ''POSITIVE''] \<subseteq> {''POSITIVE'', ''NEGATIVE'', ''NEUTRAL''}
   \<and> length [''POSITIVE'', ''NEGATIVE'', ''POSITIVE''] \<le> 3
   \<and> ''POSITIVE'' \<in> set [''POSITIVE'', ''NEGATIVE'', ''POSITIVE'']"
proof -
  have h: "analyze_sentiment_voting
     (\<lambda>i request. Responds 200 (JsonValue (PDict
         [(''response'', PStr (if i = 1 then ''Negative.'' else ''It is Positive''))])))
     [2, 0, 1] ''I love it''
   = Some (Inr (''POSITIVE'', [''POSITIVE'', ''NEGATIVE'', ''POSITIVE'']))"
    by code_simp
  have "''POSITIVE'' \<noteq> ''UNABLE TO DETERMINE''" by simp
  with raw_votes_are_labels [OF h] h show ?thesis by blast
qed

end
